theory Spec2Isabelle
  imports Main "HOL-Library.Multiset"
begin

section \<open>Python values, exceptions and the outside world\<close>

text \<open>
  The three modules under verification (\<^verbatim>\<open>acbs/pm.py\<close>, \<^verbatim>\<open>acbs/deps.py\<close>,
  \<^verbatim>\<open>acbs/main.py\<close>) are orchestration code: almost every line calls a subprocess, the
  file system or a helper of another module. The embedding keeps the control flow of the
  source and makes the outside explicit:
  \<^item> a Python \<^verbatim>\<open>str\<close> is a \<open>string\<close>, the bytes of its UTF-8 encoding; the empty string
    also stands for \<^verbatim>\<open>None\<close> in the optional string fields, which the source only ever
    tests for truthiness;
  \<^item> an exception is a value of \<open>exn\<close>, and a call that may raise returns
    \<open>(exn + 'a) \<times> state\<close>: the state is returned on the exceptional path too, since
    effects done before a \<^verbatim>\<open>raise\<close> stay done;
  \<^item> the outside is an abstract world \<open>'w\<close>; every external operation is a parameter that
    maps a world to an outcome and a new world, so a theorem holds for every behaviour of
    the host;
  \<^item> every external call, log line and printed report is appended to a chronological
    trace, which is what the claims about "logs", "prints", "attempts" and "performs no
    build step" are read from.
  Logging and printing are taken not to raise.
\<close>

datatype exn =
    RuntimeError string
  | ACBSGeneralError string
  | TypeError string
  | CalledProcessError
  | OtherException string

text \<open>
  Modelled from the spec: \<^verbatim>\<open>acbs.base.ACBSPackageInfo\<close> is not among the sources; the
  record has the fields of the spec's PackageTask (section 3), under the attribute names
  that \<^verbatim>\<open>main.py\<close> and \<^verbatim>\<open>pm.py\<close> read and assign.
\<close>

record source_uri =
  locator :: string
  subdir :: string

record package_info =
  name :: string
  version :: string
  source_uri :: source_uri
  build_deps :: "string list"
  run_deps :: "string list"
  deps :: "string list"
  installables :: "string list"
  base_slug :: string
  build_location :: string

datatype level = DEBUG | INFO | WARNING | ERROR

text \<open>
  A log call is recorded with its level, its message template as written in the source and
  the values formatted into it, so that no formatting helper has to be guessed.
\<close>

datatype arg =
    AStr string
  | AList "string list"
  | ASet "string set"
  | ANum int
  | ATasks "package_info list"

datatype event =
    Log level string "arg list"
  | Print string
  | PrintBuildTimings "(string \<times> int) list"
  | Call string "arg list"

record 'w state =
  world :: 'w
  trace :: "event list"

definition emit :: "event \<Rightarrow> ('w, 'z) state_scheme \<Rightarrow> ('w, 'z) state_scheme" where
  "emit e s = s\<lparr>trace := trace s @ [e]\<rparr>"

definition logging :: "level \<Rightarrow> string \<Rightarrow> arg list \<Rightarrow> ('w, 'z) state_scheme \<Rightarrow> ('w, 'z) state_scheme" where
  "logging l template as s = emit (Log l template as) s"

text \<open>An external operation: recorded in the trace, then run on the world.\<close>

definition call :: "string \<Rightarrow> arg list \<Rightarrow> ('w \<Rightarrow> 'a \<times> 'w) \<Rightarrow> ('w, 'z) state_scheme \<Rightarrow> 'a \<times> ('w, 'z) state_scheme" where
  "call f as operation s =
     (case operation (world s) of (r, w') \<Rightarrow> (r, (emit (Call f as) s)\<lparr>world := w'\<rparr>))"

section \<open>The host package-manager bridge (\<^verbatim>\<open>acbs/pm.py\<close>)\<close>

text \<open>
  \<^verbatim>\<open>subprocess.check_call\<close> and \<^verbatim>\<open>subprocess.check_output\<close> either complete or raise:
  \<^verbatim>\<open>CalledProcessError\<close> on a non-zero exit, something else (an \<^verbatim>\<open>OSError\<close>) when the
  program cannot be started. The output of \<^verbatim>\<open>check_output\<close> is never read by the source.
\<close>

datatype completion = Completed | Raised exn

record 'w host =
  subprocess :: "string list \<Rightarrow> 'w \<Rightarrow> completion \<times> 'w"

definition check_call :: "'w host \<Rightarrow> string list \<Rightarrow> ('w, 'z) state_scheme \<Rightarrow> completion \<times> ('w, 'z) state_scheme" where
  "check_call h command s = call ''subprocess.check_call'' [AList command] (subprocess h command) s"

definition check_output :: "'w host \<Rightarrow> string list \<Rightarrow> ('w, 'z) state_scheme \<Rightarrow> completion \<times> ('w, 'z) state_scheme" where
  "check_output h command s = call ''subprocess.check_output'' [AList command] (subprocess h command) s"

subsection \<open>\<^verbatim>\<open>escape_package_name\<close>\<close>

text \<open>
  \<^verbatim>\<open>re.sub(r'([+*?])', '\\\\\\1', name)\<close>: the pattern matches one character of the class
  \<^verbatim>\<open>[+*?]\<close>; the replacement template is a literal backslash followed by group 1. The scan
  goes left to right over non-overlapping matches and copies everything else. The three
  characters are ASCII, so the scan is the same on bytes and on code points.
\<close>

definition backslash :: char where
  "backslash = CHR 0x5C"

definition metachar :: "char \<Rightarrow> bool" where
  "metachar c = (c = CHR ''+'' \<or> c = CHR ''*'' \<or> c = CHR ''?'')"

fun escape_package_name :: "string \<Rightarrow> string" where
  "escape_package_name [] = []"
| "escape_package_name (c # cs) =
     (if metachar c then backslash # c # escape_package_name cs
      else c # escape_package_name cs)"

subsection \<open>\<^verbatim>\<open>check_if_installed\<close>, \<^verbatim>\<open>check_if_available\<close>\<close>

text \<open>Only \<^verbatim>\<open>CalledProcessError\<close> is caught; any other exception propagates.\<close>

definition check_if_installed :: "'w host \<Rightarrow> string \<Rightarrow> ('w, 'z) state_scheme \<Rightarrow> (exn + bool) \<times> ('w, 'z) state_scheme" where
  "check_if_installed h nm s =
     (case check_output h [''dpkg'', ''-s'', nm]
             (logging DEBUG ''Checking if %s is installed'' [AStr nm] s) of
        (Completed, s1) \<Rightarrow> (Inr True, s1)
      | (Raised CalledProcessError, s1) \<Rightarrow> (Inr False, s1)
      | (Raised e, s1) \<Rightarrow> (Inl e, s1))"

definition check_if_available :: "'w host \<Rightarrow> string \<Rightarrow> ('w, 'z) state_scheme \<Rightarrow> (exn + bool) \<times> ('w, 'z) state_scheme" where
  "check_if_available h nm s =
     (case check_output h [''apt-cache'', ''show'', escape_package_name nm]
             (logging DEBUG ''Checking if %s is available'' [AStr nm] s) of
        (Completed, s1) \<Rightarrow> (Inr True, s1)
      | (Raised CalledProcessError, s1) \<Rightarrow> (Inr False, s1)
      | (Raised e, s1) \<Rightarrow> (Inl e, s1))"

subsection \<open>\<^verbatim>\<open>filter_dependencies\<close>\<close>

text \<open>
  The \<^verbatim>\<open>for\<close> loop with its two local lists. The package is assigned only after the loop,
  so an exception inside the loop leaves it as it was.
\<close>

fun filter_loop :: "'w host \<Rightarrow> string list \<Rightarrow> string list \<Rightarrow> string list \<Rightarrow> ('w, 'z) state_scheme
    \<Rightarrow> (exn + string list \<times> string list) \<times> ('w, 'z) state_scheme" where
  "filter_loop h [] inst ds s = (Inr (inst, ds), s)"
| "filter_loop h (dep # rest) inst ds s =
     (case check_if_installed h dep s of
        (Inl e, s1) \<Rightarrow> (Inl e, s1)
      | (Inr True, s1) \<Rightarrow> filter_loop h rest inst ds s1
      | (Inr False, s1) \<Rightarrow>
          (case check_if_available h dep s1 of
             (Inl e, s2) \<Rightarrow> (Inl e, s2)
           | (Inr True, s2) \<Rightarrow> filter_loop h rest (inst @ [dep]) ds s2
           | (Inr False, s2) \<Rightarrow> filter_loop h rest inst (ds @ [dep]) s2))"

definition filter_dependencies :: "'w host \<Rightarrow> package_info \<Rightarrow> ('w, 'z) state_scheme
    \<Rightarrow> (exn + package_info) \<times> ('w, 'z) state_scheme" where
  "filter_dependencies h package s =
     (case filter_loop h (deps package) [] [] s of
        (Inl e, s') \<Rightarrow> (Inl e, s')
      | (Inr (inst, ds), s') \<Rightarrow> (Inr (package\<lparr>deps := ds, installables := inst\<rparr>), s'))"

subsection \<open>\<^verbatim>\<open>fix_pm_states\<close>\<close>

text \<open>
  The body of the \<^verbatim>\<open>try\<close>: the force-repair call, then the install call. \<^verbatim>\<open>except Exception\<close>
  catches whatever either raises; the second call is not made when the first raises.
  \<open>True\<close> stands for reaching the \<^verbatim>\<open>return\<close>.
\<close>

definition fix_attempt :: "'w host \<Rightarrow> string list \<Rightarrow> ('w, 'z) state_scheme \<Rightarrow> bool \<times> ('w, 'z) state_scheme" where
  "fix_attempt h escaped s =
     (case check_call h [''apt-get'', ''install'', ''-yf''] s of
        (Raised e, s1) \<Rightarrow> (False, s1)
      | (Completed, s1) \<Rightarrow>
          (case check_call h ([''apt-get'', ''install'', ''-y''] @ escaped) s1 of
             (Raised e, s2) \<Rightarrow> (False, s2)
           | (Completed, s2) \<Rightarrow> (True, s2)))"

function fix_loop :: "'w host \<Rightarrow> string list \<Rightarrow> int \<Rightarrow> ('w, 'z) state_scheme \<Rightarrow> (exn + unit) \<times> ('w, 'z) state_scheme" where
  "fix_loop h escaped cnt s =
     (if cnt < 3 then
        (case fix_attempt h escaped s of
           (True, s1) \<Rightarrow> (Inr (), s1)
         | (False, s1) \<Rightarrow> fix_loop h escaped (cnt + 1) s1)
      else (Inl (RuntimeError ''Unable to correct package manager states...''), s))"
  by pat_completeness auto
termination
  by (relation "measure (\<lambda>(h, escaped, cnt, s). nat (3 - cnt))") auto

definition fix_pm_states :: "'w host \<Rightarrow> string list \<Rightarrow> ('w, 'z) state_scheme \<Rightarrow> (exn + unit) \<times> ('w, 'z) state_scheme" where
  "fix_pm_states h escaped s = fix_loop h escaped 0 s"

subsection \<open>\<^verbatim>\<open>install_from_repo\<close>\<close>

definition install_from_repo :: "'w host \<Rightarrow> string list \<Rightarrow> ('w, 'z) state_scheme \<Rightarrow> (exn + unit) \<times> ('w, 'z) state_scheme" where
  "install_from_repo h packages s =
     (let escaped = map escape_package_name packages in
      case check_call h ([''apt-get'', ''install'', ''-y''] @ escaped)
             (logging DEBUG ''Installing %s'' [AList packages] s) of
        (Completed, s1) \<Rightarrow> (Inr (), s1)
      | (Raised CalledProcessError, s1) \<Rightarrow>
          fix_pm_states h escaped
            (logging WARNING ''Failed to install dependencies, attempting to correct issues...'' [] s1)
      | (Raised e, s1) \<Rightarrow> (Inl e, s1))"

section \<open>The dependency coordinator (\<^verbatim>\<open>acbs/deps.py\<close>)\<close>

text \<open>
  The class \<^verbatim>\<open>PackageManager\<close> that \<^verbatim>\<open>deps.py\<close> imports is not among the sources, so its
  four methods are parameters. The two queries return lists of names (they are passed to
  \<^verbatim>\<open>set(...)\<close> and joined); any of the four may raise.
\<close>

record 'w package_manager =
  query_current_miss_pkgs :: "string list \<Rightarrow> 'w \<Rightarrow> (exn + string list) \<times> 'w"
  query_online_pkgs :: "string list \<Rightarrow> 'w \<Rightarrow> (exn + string list) \<times> 'w"
  install_pkgs :: "string list \<Rightarrow> 'w \<Rightarrow> (exn + unit) \<times> 'w"
  correct_deps :: "'w \<Rightarrow> (exn + unit) \<times> 'w"

text \<open>
  A \<^verbatim>\<open>Dependencies\<close> instance is its \<^verbatim>\<open>retry\<close> attribute (a Python int); the state of its
  \<^verbatim>\<open>acbs_pm\<close> lives in the world.
\<close>

record 'w dependencies = "'w state" +
  retry :: int

definition Dependencies_init :: "'w state \<Rightarrow> 'w dependencies" where
  "Dependencies_init s = \<lparr>world = world s, trace = trace s, retry = 0\<rparr>"

text \<open>What \<^verbatim>\<open>process_deps\<close> hands back: \<^verbatim>\<open>None\<close>, a list, or the set built by \<^verbatim>\<open>search_deps\<close>.\<close>

datatype pyvalue = PyNone | PyList "string list" | PySet "string set"

text \<open>
  Modelled from the spec: \<^verbatim>\<open>acbs.utils.uniq\<close> is not among the sources; "returns a new
  list preserving first-occurrence order with duplicate elements removed".
\<close>

fun uniq_from :: "'a list \<Rightarrow> 'a list \<Rightarrow> 'a list" where
  "uniq_from seen [] = []"
| "uniq_from seen (x # xs) =
     (if x \<in> set seen then uniq_from seen xs else x # uniq_from (seen @ [x]) xs)"

definition uniq :: "'a list \<Rightarrow> 'a list" where
  "uniq xs = uniq_from [] xs"

text \<open>
  \<^verbatim>\<open>str.strip()\<close> removes leading and trailing whitespace, which for a Python \<^verbatim>\<open>str\<close> is
  the code points U+0009 to U+000D, U+001C to U+0020, U+0085, U+00A0, U+1680, U+2000 to
  U+200A, U+2028, U+2029, U+202F, U+205F and U+3000. \<open>whitespace\<close> lists their UTF-8
  encodings. In well-formed UTF-8 none of these byte sequences begins or ends inside the
  encoding of another character, so they can be removed as prefixes and as suffixes.
  \<^verbatim>\<open>not i.strip()\<close> holds when nothing is left.
\<close>

definition whitespace :: "string list" where
  "whitespace =
     map (\<lambda>c. [c]) [CHR 0x09, CHR 0x0A, CHR 0x0B, CHR 0x0C, CHR 0x0D,
                   CHR 0x1C, CHR 0x1D, CHR 0x1E, CHR 0x1F, CHR 0x20]
     @ [[CHR 0xC2, CHR 0x85], [CHR 0xC2, CHR 0xA0], [CHR 0xE1, CHR 0x9A, CHR 0x80]]
     @ map (\<lambda>c. [CHR 0xE2, CHR 0x80, c])
         [CHR 0x80, CHR 0x81, CHR 0x82, CHR 0x83, CHR 0x84, CHR 0x85, CHR 0x86, CHR 0x87,
          CHR 0x88, CHR 0x89, CHR 0x8A, CHR 0xA8, CHR 0xA9, CHR 0xAF]
     @ [[CHR 0xE2, CHR 0x81, CHR 0x9F], [CHR 0xE3, CHR 0x80, CHR 0x80]]"

function strip_leading :: "string list \<Rightarrow> string \<Rightarrow> string" where
  "strip_leading seqs i =
     (case find (\<lambda>q. q \<noteq> [] \<and> take (length q) i = q) seqs of
        Some q \<Rightarrow> strip_leading seqs (drop (length q) i)
      | None \<Rightarrow> i)"
  by pat_completeness auto
termination
proof (relation "measure (\<lambda>(seqs, i). length i)", goal_cases)
  case 1
  show ?case by simp
next
  case (2 seqs i q)
  then have "q \<noteq> []" and "take (length q) i = q"
    by (auto simp: find_Some_iff)
  then have "i \<noteq> []" by auto
  with \<open>q \<noteq> []\<close> show ?case by simp
qed

declare strip_leading.simps [simp del]

definition strip :: "string \<Rightarrow> string" where
  "strip i = rev (strip_leading (map rev whitespace) (rev (strip_leading whitespace i)))"

lemma strip_examples:
  "strip ''a'' = ''a''" "strip ''b'' = ''b''" "strip ''p'' = ''p''" "strip '' '' = []"
  "strip [CHR 0xC2, CHR 0xA0, CHR 0x09] = []"
  by (simp_all add: strip_def whitespace_def strip_leading.simps)

subsection \<open>\<^verbatim>\<open>search_deps\<close>\<close>

text \<open>
  The pair returned is \<^verbatim>\<open>(None, pkgs_not_avail)\<close> or \<^verbatim>\<open>(pkgs_to_install, None)\<close>;
  \<^verbatim>\<open>pkgs_not_avail\<close> is a Python set, tested for truthiness (non-empty).
\<close>

definition search_deps :: "'w package_manager \<Rightarrow> string list \<Rightarrow> ('w, 'z) state_scheme
    \<Rightarrow> (exn + string list option \<times> string set option) \<times> ('w, 'z) state_scheme" where
  "search_deps pm search_pkgs s =
     (case call ''query_current_miss_pkgs'' [AList search_pkgs] (query_current_miss_pkgs pm search_pkgs) s of
        (Inl e, s1) \<Rightarrow> (Inl e, s1)
      | (Inr pkgs_miss, s1) \<Rightarrow>
          (case call ''query_online_pkgs'' [AList pkgs_miss] (query_online_pkgs pm pkgs_miss) s1 of
             (Inl e, s2) \<Rightarrow> (Inl e, s2)
           | (Inr pkgs_to_install, s2) \<Rightarrow>
               (let pkgs_not_avail = set pkgs_miss - set pkgs_to_install in
                if pkgs_not_avail \<noteq> {} then (Inr (None, Some pkgs_not_avail), s2)
                else (Inr (Some pkgs_to_install, None), s2))))"

subsection \<open>\<^verbatim>\<open>process_deps\<close>\<close>

text \<open>Truthiness of the two components (\<^verbatim>\<open>None\<close> and the empty container are false).\<close>

definition truthy_set :: "string set option \<Rightarrow> bool" where
  "truthy_set v = (case v of None \<Rightarrow> False | Some S \<Rightarrow> S \<noteq> {})"

definition truthy_list :: "string list option \<Rightarrow> bool" where
  "truthy_list v = (case v of None \<Rightarrow> False | Some l \<Rightarrow> l \<noteq> [])"

definition self_dependency_message :: string where
  "self_dependency_message = ''The package can't depends on its self! And no binary package found!''"

definition self_binary_message :: string where
  "self_binary_message = ''The package depends on its self, however, it has binary package.''"

definition exhaust_message :: string where
  "exhaust_message = ''Dependencies still didn't satisfy, entering exhaust mode...''"

definition install_failed_message :: string where
  "install_failed_message = ''An error occurred when installing dependencies''"

definition checking_message :: string where
  "checking_message = ''Checking for dependencies, this may take a while...''"

text \<open>Lines 26 to 33: the check made for an entry equal to the package's own slug.\<close>

definition self_check :: "'w package_manager \<Rightarrow> string \<Rightarrow> string \<Rightarrow> ('w, 'z) state_scheme
    \<Rightarrow> (exn + unit) \<times> ('w, 'z) state_scheme" where
  "self_check pm pkg_slug i s =
     (if i = pkg_slug then
        (case search_deps pm [i] s of
           (Inl e, s1) \<Rightarrow> (Inl e, s1)
         | (Inr (_, pkgs_not_avail), s1) \<Rightarrow>
             if truthy_set pkgs_not_avail then (Inl (ACBSGeneralError self_dependency_message), s1)
             else (Inr (), logging WARNING self_binary_message [] s1))
      else (Inr (), s))"

text \<open>Lines 25 to 36: the loop over \<^verbatim>\<open>search_pkgs_tmp\<close> that fills \<^verbatim>\<open>search_pkgs\<close>.\<close>

fun collect_search_pkgs :: "'w package_manager \<Rightarrow> string \<Rightarrow> string list \<Rightarrow> string list \<Rightarrow> ('w, 'z) state_scheme
    \<Rightarrow> (exn + string list) \<times> ('w, 'z) state_scheme" where
  "collect_search_pkgs pm pkg_slug [] search_pkgs s = (Inr search_pkgs, s)"
| "collect_search_pkgs pm pkg_slug (i # rest) search_pkgs s =
     (case self_check pm pkg_slug i s of
        (Inl e, s1) \<Rightarrow> (Inl e, s1)
      | (Inr _, s1) \<Rightarrow>
          if strip i = [] then collect_search_pkgs pm pkg_slug rest search_pkgs s1
          else collect_search_pkgs pm pkg_slug rest (search_pkgs @ [i]) s1)"

text \<open>
  The value of a component where the source has made sure it is not \<^verbatim>\<open>None\<close>
  (\<^verbatim>\<open>x or []\<close>, or a use after the truthiness test).
\<close>

definition list_or_empty :: "string list option \<Rightarrow> string list" where
  "list_or_empty v = (case v of None \<Rightarrow> [] | Some l \<Rightarrow> l)"

definition set_or_empty :: "string set option \<Rightarrow> string set" where
  "set_or_empty v = (case v of None \<Rightarrow> {} | Some S \<Rightarrow> S)"

text \<open>
  Line 40: \<^verbatim>\<open>uniq((pkgs_not_avail or []) + (pkgs_to_install or []))\<close>. A non-empty
  \<^verbatim>\<open>pkgs_not_avail\<close> is a set, and Python has no \<^verbatim>\<open>+\<close> between a set and a list.
\<close>

definition exhaust_result :: "string list option \<Rightarrow> string set option \<Rightarrow> exn + pyvalue" where
  "exhaust_result pkgs_to_install pkgs_not_avail =
     (if truthy_set pkgs_not_avail
      then Inl (TypeError (''unsupported operand type(s) for +: 'set' and 'list'' @ [CHR 0x27]))
      else Inr (PyList (uniq ([] @ list_or_empty pkgs_to_install))))"

text \<open>The methods above leave the \<^verbatim>\<open>retry\<close> attribute alone.\<close>

lemma retry_logging [simp]: "retry (logging l t as s) = retry s"
  by (simp add: logging_def emit_def)

lemma retry_call: "call f as operation s = (r, s') \<Longrightarrow> retry s' = retry s"
  by (auto simp: call_def emit_def split: prod.splits)

lemma retry_search_deps: "search_deps pm pkgs s = (r, s') \<Longrightarrow> retry s' = retry s"
  by (auto simp: search_deps_def Let_def split: prod.splits sum.splits if_splits dest!: retry_call)

lemma retry_self_check: "self_check pm slug i s = (r, s') \<Longrightarrow> retry s' = retry s"
  by (auto simp: self_check_def split: prod.splits sum.splits if_splits dest!: retry_search_deps)

lemma retry_collect_search_pkgs:
  "collect_search_pkgs pm slug xs acc s = (r, s') \<Longrightarrow> retry s' = retry s"
proof (induction xs arbitrary: acc s)
  case Nil
  then show ?case by simp
next
  case (Cons i rest)
  then show ?case
    by (auto split: prod.splits sum.splits if_splits dest!: retry_self_check)
qed

text \<open>
  Lines 37 to 57: what a call does once \<^verbatim>\<open>search_pkgs\<close> is filled. \<open>Some r\<close> is a call that
  ends here, by a \<^verbatim>\<open>return\<close> or a \<^verbatim>\<open>raise\<close>; \<open>None\<close> is the \<^verbatim>\<open>except\<close> handler having
  run \<^verbatim>\<open>correct_deps\<close>, with lines 58 and 59 still to come.
\<close>

definition decide :: "'w package_manager \<Rightarrow> string list \<Rightarrow> 'w dependencies
    \<Rightarrow> (exn + pyvalue) option \<times> 'w dependencies" where
  "decide pm search_pkgs s =
     (case search_deps pm search_pkgs s of
        (Inl e, s2) \<Rightarrow> (Some (Inl e), s2)
      | (Inr (pkgs_to_install, pkgs_not_avail), s2) \<Rightarrow>
          if retry s2 > 1 then
            (Some (exhaust_result pkgs_to_install pkgs_not_avail), logging WARNING exhaust_message [] s2)
          else if truthy_set pkgs_not_avail then
            (Some (Inr (PySet (set_or_empty pkgs_not_avail))),
             logging INFO (''Building in-tree dependencies: '' @ CHR 0x1B # ''[36m{}'' @ CHR 0x1B # ''[0m'')
               [ASet (set_or_empty pkgs_not_avail)] s2)
          else if \<not> truthy_list pkgs_to_install then
            (Some (Inr PyNone), logging INFO ''All dependencies are met. Continue.'' [] s2)
          else
            (case call ''install_pkgs'' [AList (list_or_empty pkgs_to_install)]
                    (install_pkgs pm (list_or_empty pkgs_to_install))
                    (logging INFO (''Will install '' @ CHR 0x1B # ''[36m{}'' @ CHR 0x1B # ''[0m as required.'')
                      [AList (list_or_empty pkgs_to_install)] s2) of
               (Inr _, s3) \<Rightarrow> (Some (Inr PyNone), s3)
             | (Inl ex, s3) \<Rightarrow>
                 (case call ''correct_deps'' [] (correct_deps pm)
                         (logging INFO ''Trying to correct dependencies...'' []
                           (logging WARNING install_failed_message [] s3)) of
                    (Inl e, s4) \<Rightarrow> (Some (Inl e), s4)
                  | (Inr _, s4) \<Rightarrow> (None, s4))))"

text \<open>Lines 21 to 57: the loop, then the decision.\<close>

definition process_deps_body :: "'w package_manager \<Rightarrow> string list \<Rightarrow> string list \<Rightarrow> string \<Rightarrow> 'w dependencies
    \<Rightarrow> (exn + pyvalue) option \<times> 'w dependencies" where
  "process_deps_body pm bdeps rdeps pkg_slug s =
     (let search_pkgs_tmp = bdeps @ rdeps in
      case collect_search_pkgs pm pkg_slug search_pkgs_tmp []
             (logging DEBUG ''Searching dependencies: {}'' [AList search_pkgs_tmp]
               (logging INFO checking_message [] s)) of
        (Inl e, s1) \<Rightarrow> (Some (Inl e), s1)
      | (Inr search_pkgs, s1) \<Rightarrow> decide pm search_pkgs s1)"

lemma retry_decide: "decide pm pkgs s = (r, s') \<Longrightarrow> retry s' = retry s"
  by (auto simp: decide_def split: prod.splits sum.splits if_splits
      dest!: retry_search_deps retry_call)

lemma decide_None: "decide pm pkgs s = (None, s') \<Longrightarrow> \<not> 1 < retry s"
  by (auto simp: decide_def split: prod.splits sum.splits if_splits dest!: retry_search_deps)

lemma retry_process_deps_body:
  "process_deps_body pm bdeps rdeps pkg_slug s = (r, s') \<Longrightarrow> retry s' = retry s"
  by (auto simp: process_deps_body_def Let_def split: prod.splits sum.splits
      dest!: retry_collect_search_pkgs retry_decide)

lemma process_deps_body_None:
  "process_deps_body pm bdeps rdeps pkg_slug s = (None, s') \<Longrightarrow> \<not> 1 < retry s"
  by (auto simp: process_deps_body_def Let_def split: prod.splits sum.splits
      dest!: retry_collect_search_pkgs decide_None)

text \<open>
  Lines 20 to 59. After a failed installation and its correction the counter is
  incremented and the method calls itself with the same arguments. The value of that call
  is dropped (line 59 has no \<^verbatim>\<open>return\<close>), so the caller gets the implicit \<^verbatim>\<open>None\<close>; an
  exception of that call propagates.
\<close>

function process_deps :: "'w package_manager \<Rightarrow> string list \<Rightarrow> string list \<Rightarrow> string \<Rightarrow> 'w dependencies
    \<Rightarrow> (exn + pyvalue) \<times> 'w dependencies" where
  "process_deps pm bdeps rdeps pkg_slug s =
     (case process_deps_body pm bdeps rdeps pkg_slug s of
        (Some r, s1) \<Rightarrow> (r, s1)
      | (None, s1) \<Rightarrow>
          (case process_deps pm bdeps rdeps pkg_slug (s1\<lparr>retry := retry s1 + 1\<rparr>) of
             (Inl e, s2) \<Rightarrow> (Inl e, s2)
           | (Inr _, s2) \<Rightarrow> (Inr PyNone, s2)))"
  by pat_completeness auto
termination
proof (relation "measure (\<lambda>(pm, bdeps, rdeps, pkg_slug, s). nat (2 - retry s))", goal_cases)
  case 1
  show ?case by simp
next
  case (2 pm bdeps rdeps pkg_slug s r s1)
  then have body: "process_deps_body pm bdeps rdeps pkg_slug s = (None, s1)" by simp
  from retry_process_deps_body [OF body] process_deps_body_None [OF body]
  show ?case by simp
qed

section \<open>The build driver (\<^verbatim>\<open>acbs/main.py\<close>, \<^verbatim>\<open>BuildCore.build\<close>)\<close>

text \<open>
  The helpers that \<^verbatim>\<open>main.py\<close> imports from \<^verbatim>\<open>acbs.find\<close>, \<^verbatim>\<open>acbs.parser\<close>, \<^verbatim>\<open>acbs.deps\<close>,
  \<^verbatim>\<open>acbs.fetch\<close> and \<^verbatim>\<open>acbs.utils\<close> are not among the sources: each is a parameter that may
  raise. \<open>'g\<close> is whatever \<^verbatim>\<open>get_deps_graph\<close> returns; \<^verbatim>\<open>find_package\<close> returning \<open>[]\<close>
  stands for any falsy result; \<^verbatim>\<open>guess_subdir\<close> returning \<open>''''\<close> stands for \<^verbatim>\<open>None\<close>. The
  helpers read the task they are given and do not assign to it. \<^verbatim>\<open>time.monotonic()\<close> is
  a clock reading in ticks: the source keeps float seconds, whose value nothing below
  depends on.
\<close>

record ('w, 'g) helpers =
  find_package :: "string \<Rightarrow> string \<Rightarrow> 'w \<Rightarrow> (exn + package_info list) \<times> 'w"
  get_deps_graph :: "package_info list \<Rightarrow> 'w \<Rightarrow> (exn + 'g) \<times> 'w"
  tarjan_search :: "'g \<Rightarrow> string \<Rightarrow> 'w \<Rightarrow> (exn + package_info list list) \<times> 'w"
  check_package_groups :: "package_info list \<Rightarrow> 'w \<Rightarrow> (exn + unit) \<times> 'w"
  has_stamp :: "string \<Rightarrow> 'w \<Rightarrow> (exn + bool) \<times> 'w"
  fetch_source :: "source_uri \<Rightarrow> string \<Rightarrow> string \<Rightarrow> 'w \<Rightarrow> (exn + unit) \<times> 'w"
  make_build_dir :: "string \<Rightarrow> 'w \<Rightarrow> (exn + string) \<times> 'w"
  process_source :: "package_info \<Rightarrow> string \<Rightarrow> 'w \<Rightarrow> (exn + unit) \<times> 'w"
  touch :: "string \<Rightarrow> 'w \<Rightarrow> (exn + unit) \<times> 'w"
  guess_subdir :: "string \<Rightarrow> 'w \<Rightarrow> (exn + string) \<times> 'w"
  invoke_autobuild :: "package_info \<Rightarrow> string \<Rightarrow> 'w \<Rightarrow> (exn + unit) \<times> 'w"
  monotonic :: "'w \<Rightarrow> int \<times> 'w"
  apt :: "'w host"

text \<open>The attributes of a \<^verbatim>\<open>BuildCore\<close> that \<^verbatim>\<open>build\<close> reads.\<close>

record build_core =
  no_deps :: bool
  dl_only :: bool
  build_queue :: "string list"
  tree_dir :: string
  dump_dir :: string
  tmp_dir :: string

text \<open>\<^verbatim>\<open>os.path.basename\<close> and \<^verbatim>\<open>os.path.join\<close> (two arguments) of \<^verbatim>\<open>posixpath\<close>.\<close>

definition basename :: "string \<Rightarrow> string" where
  "basename p = rev (takeWhile (\<lambda>c. c \<noteq> CHR ''/'') (rev p))"

definition path_join :: "string \<Rightarrow> string \<Rightarrow> string" where
  "path_join a b =
     (if take 1 b = ''/'' then b
      else if a = [] \<or> take 1 (rev a) = ''/'' then a @ b
      else a @ ''/'' @ b)"

subsection \<open>Lines 82 to 87: finding the requested packages\<close>

fun find_packages :: "('w, 'g) helpers \<Rightarrow> build_core \<Rightarrow> string list \<Rightarrow> package_info list \<Rightarrow> 'w state
    \<Rightarrow> (exn + package_info list) \<times> 'w state" where
  "find_packages env self [] packages s = (Inr packages, s)"
| "find_packages env self (i # rest) packages s =
     (case call ''find_package'' [AStr i, AStr (tree_dir self)] (find_package env i (tree_dir self))
             (logging DEBUG ''Finding {}...'' [AStr i] s) of
        (Inl e, s1) \<Rightarrow> (Inl e, s1)
      | (Inr package, s1) \<Rightarrow>
          if package = [] then (Inl (RuntimeError (''Could not find package '' @ i)), s1)
          else find_packages env self rest (packages @ package) s1)"

subsection \<open>Lines 88 to 95: resolving the queue\<close>

definition resolve :: "('w, 'g) helpers \<Rightarrow> build_core \<Rightarrow> package_info list \<Rightarrow> 'w state
    \<Rightarrow> (exn + package_info list list) \<times> 'w state" where
  "resolve env self packages s =
     (if \<not> no_deps self then
        (case call ''get_deps_graph'' [ATasks packages] (get_deps_graph env packages)
                (logging DEBUG ''Converting queue into adjacency graph...'' [] s) of
           (Inl e, s1) \<Rightarrow> (Inl e, s1)
         | (Inr graph, s1) \<Rightarrow>
             call ''tarjan_search'' [AStr (tree_dir self)] (tarjan_search env graph (tree_dir self))
               (logging DEBUG ''Running Tarjan search...'' [] s1))
      else
        (Inr (map (\<lambda>package. [package]) packages),
         logging WARNING ''Warning: Dependency resolution disabled!'' [] s))"

subsection \<open>Lines 100 to 107: looking for loops\<close>

text \<open>
  The loop over \<^verbatim>\<open>resolved\<close> with its two variables: the list \<^verbatim>\<open>packages\<close> (cleared on
  line 98) and the flag \<^verbatim>\<open>error\<close>. The names of a loop go through
  \<^verbatim>\<open>print_package_names\<close>; the log entry keeps the component itself.
\<close>

definition loop_message :: string where
  "loop_message = ''Found a loop in the dependency graph: {}''"

fun check_loops :: "package_info list list \<Rightarrow> package_info list \<Rightarrow> bool \<Rightarrow> 'w state
    \<Rightarrow> (package_info list \<times> bool) \<times> 'w state" where
  "check_loops [] packages error s = ((packages, error), s)"
| "check_loops (dep # rest) packages error s =
     (if length dep > 1 then check_loops rest packages True (logging ERROR loop_message [ATasks dep] s)
      else if \<not> error then check_loops rest (packages @ dep) error s
      else check_loops rest packages error s)"

subsection \<open>Lines 118 to 156: one turn of the build loop\<close>

text \<open>Lines 127 to 136: the build directory of the task, staged once.\<close>

definition stage :: "('w, 'g) helpers \<Rightarrow> build_core \<Rightarrow> package_info \<Rightarrow> string \<Rightarrow> 'w state
    \<Rightarrow> (exn + package_info \<times> string) \<times> 'w state" where
  "stage env self task source_name s =
     (if build_location task = [] then
        (case call ''make_build_dir'' [AStr (tmp_dir self)] (make_build_dir env (tmp_dir self)) s of
           (Inl e, s1) \<Rightarrow> (Inl e, s1)
         | (Inr build_dir, s1) \<Rightarrow>
             (let task' = task\<lparr>build_location := build_dir\<rparr> in
              case call ''process_source'' [AStr (name task'), AStr source_name]
                     (process_source env task' source_name) s1 of
                (Inl e, s2) \<Rightarrow> (Inl e, s2)
              | (Inr _, s2) \<Rightarrow> (Inr (task', build_dir), s2)))
      else
        (case call ''has_stamp'' [AStr (build_location task)] (has_stamp env (build_location task)) s of
           (Inl e, s1) \<Rightarrow> (Inl e, s1)
         | (Inr stamped, s1) \<Rightarrow>
             if \<not> stamped then
               (case call ''process_source'' [AStr (name task), AStr source_name]
                       (process_source env task source_name) s1 of
                  (Inl e, s2) \<Rightarrow> (Inl e, s2)
                | (Inr _, s2) \<Rightarrow>
                    (case call ''Path.touch'' [AStr (path_join (build_location task) ''.acbs-stamp'')]
                            (touch env (path_join (build_location task) ''.acbs-stamp'')) s2 of
                       (Inl e, s3) \<Rightarrow> (Inl e, s3)
                     | (Inr _, s3) \<Rightarrow> (Inr (task, build_location task), s3)))
             else (Inr (task, build_location task), s1)))"

text \<open>Lines 137 to 144: the directory the build runs in.\<close>

definition source_root :: "('w, 'g) helpers \<Rightarrow> package_info \<Rightarrow> string \<Rightarrow> 'w state
    \<Rightarrow> (exn + string) \<times> 'w state" where
  "source_root env task build_dir s =
     (if subdir (source_uri task) \<noteq> [] then (Inr (path_join build_dir (subdir (source_uri task))), s)
      else
        (case call ''guess_subdir'' [AStr build_dir] (guess_subdir env build_dir) s of
           (Inl e, s1) \<Rightarrow> (Inl e, s1)
         | (Inr sub, s1) \<Rightarrow>
             if sub = [] then
               (Inl (RuntimeError ''Could not determine sub-directory, please specify manually.''), s1)
             else (Inr (path_join build_dir sub), s1)))"

text \<open>
  Lines 119 to 147: everything a turn does before the clock is started. \<open>None\<close> is the
  \<^verbatim>\<open>continue\<close> of download-only mode; otherwise the task and the directory to build in.
\<close>

definition prepare :: "('w, 'g) helpers \<Rightarrow> build_core \<Rightarrow> package_info \<Rightarrow> 'w state
    \<Rightarrow> (exn + (package_info \<times> string) option) \<times> 'w state" where
  "prepare env self task s =
     (let source_name = (if base_slug task \<noteq> [] then basename (base_slug task) else name task) in
      case call ''has_stamp'' [AStr (build_location task)] (has_stamp env (build_location task))
             (logging INFO ''Building {}...'' [AStr (name task)] s) of
        (Inl e, s1) \<Rightarrow> (Inl e, s1)
      | (Inr stamped, s1) \<Rightarrow>
          (case (if \<not> stamped
                 then call ''fetch_source'' [AStr (locator (source_uri task)), AStr (dump_dir self), AStr source_name]
                        (fetch_source env (source_uri task) (dump_dir self) source_name) s1
                 else (Inr (), s1)) of
             (Inl e, s2) \<Rightarrow> (Inl e, s2)
           | (Inr _, s2) \<Rightarrow>
               if dl_only self then (Inr None, s2)
               else
                 (case stage env self task source_name s2 of
                    (Inl e, s3) \<Rightarrow> (Inl e, s3)
                  | (Inr (task', build_dir), s3) \<Rightarrow>
                      (case source_root env task' build_dir s3 of
                         (Inl e, s4) \<Rightarrow> (Inl e, s4)
                       | (Inr build_dir', s4) \<Rightarrow>
                           (case (if installables task' \<noteq> []
                                  then install_from_repo (apt env) (installables task')
                                         (logging INFO ''Installing dependencies from repository...'' [] s4)
                                  else (Inr (), s4)) of
                              (Inl e, s5) \<Rightarrow> (Inl e, s5)
                            | (Inr _, s5) \<Rightarrow> (Inr (Some (task', build_dir')), s5))))))"

text \<open>Lines 148 to 156: the timed call of the build tool.\<close>

definition build_failure :: "string \<Rightarrow> string \<Rightarrow> exn" where
  "build_failure nm build_dir =
     RuntimeError (''Error when building '' @ nm @ ''.'' @ [CHR 0x0A] @ ''Build folder: '' @ build_dir)"

definition timed_build :: "('w, 'g) helpers \<Rightarrow> package_info \<Rightarrow> string \<Rightarrow> (string \<times> int) list \<Rightarrow> 'w state
    \<Rightarrow> (exn + (string \<times> int) list) \<times> 'w state" where
  "timed_build env task build_dir build_timings s =
     (case call ''time.monotonic'' [] (monotonic env) s of
        (start, s1) \<Rightarrow>
          (case call ''invoke_autobuild'' [AStr (name task), AStr build_dir]
                  (invoke_autobuild env task build_dir) s1 of
             (Inl ex, s2) \<Rightarrow>
               (Inl (build_failure (name task) build_dir),
                if build_timings \<noteq> [] then emit (PrintBuildTimings build_timings) s2 else s2)
           | (Inr _, s2) \<Rightarrow>
               (case call ''time.monotonic'' [] (monotonic env) s2 of
                  (finish, s3) \<Rightarrow> (Inr (build_timings @ [(name task, finish - start)]), s3))))"

definition build_task :: "('w, 'g) helpers \<Rightarrow> build_core \<Rightarrow> package_info \<Rightarrow> (string \<times> int) list \<Rightarrow> 'w state
    \<Rightarrow> (exn + (string \<times> int) list) \<times> 'w state" where
  "build_task env self task build_timings s =
     (case prepare env self task s of
        (Inl e, s1) \<Rightarrow> (Inl e, s1)
      | (Inr None, s1) \<Rightarrow> (Inr build_timings, s1)
      | (Inr (Some (task', build_dir)), s1) \<Rightarrow> timed_build env task' build_dir build_timings s1)"

fun build_loop :: "('w, 'g) helpers \<Rightarrow> build_core \<Rightarrow> package_info list \<Rightarrow> (string \<times> int) list \<Rightarrow> 'w state
    \<Rightarrow> (exn + (string \<times> int) list) \<times> 'w state" where
  "build_loop env self [] build_timings s = (Inr build_timings, s)"
| "build_loop env self (task # rest) build_timings s =
     (case build_task env self task build_timings s of
        (Inl e, s1) \<Rightarrow> (Inl e, s1)
      | (Inr build_timings', s1) \<Rightarrow> build_loop env self rest build_timings' s1)"

subsection \<open>\<^verbatim>\<open>build\<close>\<close>

definition unresolved_error :: exn where
  "unresolved_error = RuntimeError ''Dependencies NOT resolved. Couldn't continue!''"

definition build :: "('w, 'g) helpers \<Rightarrow> build_core \<Rightarrow> 'w state \<Rightarrow> (exn + unit) \<times> 'w state" where
  "build env self s =
     (case find_packages env self (build_queue self) []
             (logging INFO ''Searching and resolving dependencies...'' [] s) of
        (Inl e, s1) \<Rightarrow> (Inl e, s1)
      | (Inr found, s1) \<Rightarrow>
          (case resolve env self found s1 of
             (Inl e, s2) \<Rightarrow> (Inl e, s2)
           | (Inr resolved, s2) \<Rightarrow>
               (case check_loops resolved [] False (emit (Print []) s2) of
                  ((packages, error), s3) \<Rightarrow>
                    if error then (Inl unresolved_error, s3)
                    else
                      (case call ''check_package_groups'' [ATasks packages]
                              (check_package_groups env packages) s3 of
                         (Inl e, s4) \<Rightarrow> (Inl e, s4)
                       | (Inr _, s4) \<Rightarrow>
                           (case build_loop env self packages []
                                   (logging INFO ''Packages to be built: {}'' [ATasks packages]
                                     (logging DEBUG ''Queue: {}'' [ATasks packages]
                                       (logging INFO ''Dependencies resolved, {} packages in the queue''
                                          [ANum (int (length resolved))] s4))) of
                              (Inl e, s5) \<Rightarrow> (Inl e, s5)
                            | (Inr build_timings, s5) \<Rightarrow>
                                (Inr (), emit (PrintBuildTimings build_timings) s5))))))"

section \<open>Reading the trace\<close>

text \<open>The calls of one external operation, in order, and the entries logged with one template.\<close>

definition called :: "string \<Rightarrow> event list \<Rightarrow> event list" where
  "called f tr = filter (\<lambda>e. case e of Call g as \<Rightarrow> g = f | _ \<Rightarrow> False) tr"

definition logged :: "string \<Rightarrow> event list \<Rightarrow> event list" where
  "logged template tr = filter (\<lambda>e. case e of Log l t as \<Rightarrow> t = template | _ \<Rightarrow> False) tr"


section \<open>Claims about \<^verbatim>\<open>acbs/pm.py\<close>\<close>

subsection \<open>C9: escaping a package name\<close>

lemma escape_package_name_concat:
  "escape_package_name nm = concat (map (\<lambda>c. if metachar c then [backslash, c] else [c]) nm)"
  by (induction nm) simp_all

lemma escape_package_name_plain:
  "\<forall>c \<in> set nm. \<not> metachar c \<Longrightarrow> escape_package_name nm = nm"
  by (induction nm) simp_all

text \<open>
  Claim C9. \<^verbatim>\<open>escape_package_name\<close> replaces every \<^verbatim>\<open>+\<close>, \<^verbatim>\<open>*\<close> and \<^verbatim>\<open>?\<close> by a backslash
  followed by that character and copies every other character: the result is the
  concatenation, character by character, of either the escaped pair or the character
  itself. \<^verbatim>\<open>gcc+\<close> becomes \<^verbatim>\<open>gcc\+\<close>, \<^verbatim>\<open>lib?\<close> becomes \<^verbatim>\<open>lib\?\<close>, and a name without any of
  the three characters comes back unchanged.
\<close>

theorem escape_package_name_spec:
  "escape_package_name nm = concat (map (\<lambda>c. if metachar c then [backslash, c] else [c]) nm)
   \<and> escape_package_name ''gcc+'' = ''gcc'' @ [backslash, CHR ''+'']
   \<and> escape_package_name ''lib?'' = ''lib'' @ [backslash, CHR ''?'']
   \<and> ((\<forall>c \<in> set nm. \<not> metachar c) \<longrightarrow> escape_package_name nm = nm)"
proof (intro conjI impI)
  show "escape_package_name nm = concat (map (\<lambda>c. if metachar c then [backslash, c] else [c]) nm)"
    by (rule escape_package_name_concat)
  show "escape_package_name ''gcc+'' = ''gcc'' @ [backslash, CHR ''+'']"
    by (simp add: metachar_def)
  show "escape_package_name ''lib?'' = ''lib'' @ [backslash, CHR ''?'']"
    by (simp add: metachar_def)
  show "escape_package_name nm = nm" if "\<forall>c \<in> set nm. \<not> metachar c"
    using that by (rule escape_package_name_plain)
qed

theorem escape_package_name_spec_witness:
  "escape_package_name ''glibc'' = ''glibc''
   \<and> escape_package_name ''a*b'' = [CHR ''a'', backslash, CHR ''*'', CHR ''b'']"
  using escape_package_name_spec [of "''glibc''"] escape_package_name_spec [of "''a*b''"]
  by (simp add: metachar_def)

subsection \<open>C5: repairing the package manager\<close>








subsection \<open>C2: filtering the dependencies of a task\<close>

text \<open>
  The partition in the words of the spec (section 4.6): each dependency, in order, is
  already installed (dropped), or else available as a host binary (moved to
  \<^verbatim>\<open>installables\<close>), or else part of the remainder (kept in \<^verbatim>\<open>deps\<close>). \<open>classify_all\<close>
  asks the host the two questions for each dependency in turn; \<open>of_class\<close> picks the
  dependencies that got a given answer, in order and with repetitions.
\<close>

datatype dep_class = Installed | Available | Remainder

definition classify :: "'w host \<Rightarrow> string \<Rightarrow> ('w, 'z) state_scheme \<Rightarrow> (exn + dep_class) \<times> ('w, 'z) state_scheme" where
  "classify h dep s =
     (case check_if_installed h dep s of
        (Inl e, s1) \<Rightarrow> (Inl e, s1)
      | (Inr True, s1) \<Rightarrow> (Inr Installed, s1)
      | (Inr False, s1) \<Rightarrow>
          (case check_if_available h dep s1 of
             (Inl e, s2) \<Rightarrow> (Inl e, s2)
           | (Inr True, s2) \<Rightarrow> (Inr Available, s2)
           | (Inr False, s2) \<Rightarrow> (Inr Remainder, s2)))"

fun classify_all :: "'w host \<Rightarrow> string list \<Rightarrow> ('w, 'z) state_scheme \<Rightarrow> (exn + dep_class list) \<times> ('w, 'z) state_scheme" where
  "classify_all h [] s = (Inr [], s)"
| "classify_all h (dep # rest) s =
     (case classify h dep s of
        (Inl e, s1) \<Rightarrow> (Inl e, s1)
      | (Inr c, s1) \<Rightarrow>
          (case classify_all h rest s1 of
             (Inl e, s2) \<Rightarrow> (Inl e, s2)
           | (Inr cs, s2) \<Rightarrow> (Inr (c # cs), s2)))"

definition of_class :: "dep_class \<Rightarrow> string list \<Rightarrow> dep_class list \<Rightarrow> string list" where
  "of_class c xs cs = map fst (filter (\<lambda>(d, c'). c' = c) (zip xs cs))"

text \<open>
  A host whose answers do not depend on when it is asked: \<open>a\<close> gives the completion of
  every command. On such a host "installed" and "available" are properties of a name.
\<close>

definition answers :: "'w host \<Rightarrow> (string list \<Rightarrow> completion) \<Rightarrow> bool" where
  "answers h a = (\<forall>command w. fst (subprocess h command w) = a command)"

definition installed_in :: "(string list \<Rightarrow> completion) \<Rightarrow> string \<Rightarrow> bool" where
  "installed_in a nm = (a [''dpkg'', ''-s'', nm] = Completed)"

definition available_in :: "(string list \<Rightarrow> completion) \<Rightarrow> string \<Rightarrow> bool" where
  "available_in a nm = (a [''apt-cache'', ''show'', escape_package_name nm] = Completed)"

lemma filter_loop_classify_all:
  "filter_loop h xs inst ds s =
     (case classify_all h xs s of
        (Inl e, s') \<Rightarrow> (Inl e, s')
      | (Inr cs, s') \<Rightarrow> (Inr (inst @ of_class Available xs cs, ds @ of_class Remainder xs cs), s'))"
proof (induction xs arbitrary: inst ds s)
  case Nil
  then show ?case by (simp add: of_class_def)
next
  case (Cons dep rest)
  show ?case
    by (simp add: Cons.IH classify_def of_class_def split: prod.splits sum.splits bool.splits)
qed

lemma check_output_answers:
  "answers h a \<Longrightarrow> fst (check_output h command s) = a command"
  by (simp add: answers_def check_output_def call_def split: prod.splits)
     (metis fst_conv)

lemma classify_answers:
  assumes "answers h a" and "classify h dep s = (Inr c, s')"
  shows "c = (if installed_in a dep then Installed else if available_in a dep then Available else Remainder)"
proof -
  let ?s0 = "logging DEBUG ''Checking if %s is installed'' [AStr dep] s"
  obtain r1 s1 where c1: "check_output h [''dpkg'', ''-s'', dep] ?s0 = (r1, s1)"
    by (cases "check_output h [''dpkg'', ''-s'', dep] ?s0")
  from check_output_answers [OF assms(1), of "[''dpkg'', ''-s'', dep]" ?s0] c1
  have a1: "a [''dpkg'', ''-s'', dep] = r1" by simp
  let ?s2 = "logging DEBUG ''Checking if %s is available'' [AStr dep] s1"
  obtain r2 s3 where c2: "check_output h [''apt-cache'', ''show'', escape_package_name dep] ?s2 = (r2, s3)"
    by (cases "check_output h [''apt-cache'', ''show'', escape_package_name dep] ?s2")
  from check_output_answers [OF assms(1), of "[''apt-cache'', ''show'', escape_package_name dep]" ?s2] c2
  have a2: "a [''apt-cache'', ''show'', escape_package_name dep] = r2" by simp
  from assms(2) c1 c2 show ?thesis
    by (auto simp: classify_def check_if_installed_def check_if_available_def installed_in_def
        available_in_def a1 a2 split: completion.splits exn.splits if_splits)
qed

lemma classify_all_answers:
  "answers h a \<Longrightarrow> classify_all h xs s = (Inr cs, s') \<Longrightarrow>
     cs = map (\<lambda>dep. if installed_in a dep then Installed
                      else if available_in a dep then Available else Remainder) xs"
proof (induction xs arbitrary: cs s)
  case Nil
  then show ?case by simp
next
  case (Cons dep rest)
  from Cons.prems(2) obtain c s1 cs' where
    one: "classify h dep s = (Inr c, s1)" and more: "classify_all h rest s1 = (Inr cs', s')"
    and cs: "cs = c # cs'"
    by (auto split: prod.splits sum.splits)
  from classify_answers [OF Cons.prems(1) one] Cons.IH [OF Cons.prems(1) more] cs
  show ?case by simp
qed

lemma of_class_map:
  "of_class c xs (map f xs) = filter (\<lambda>d. f d = c) xs"
  by (induction xs) (simp_all add: of_class_def)

lemma mset_of_class:
  "length cs = length xs \<Longrightarrow>
     mset (of_class Available xs cs) + mset (of_class Remainder xs cs) \<subseteq># mset xs"
proof (induction xs arbitrary: cs)
  case Nil
  then show ?case by (simp add: of_class_def)
next
  case (Cons x xs)
  then obtain c cs' where cs: "cs = c # cs'" and len: "length cs' = length xs"
    by (cases cs) auto
  from Cons.IH [OF len] have ih: "mset (of_class Available xs cs') + mset (of_class Remainder xs cs') \<subseteq># mset xs" .
  show ?case
  proof (cases c)
    case Installed
    from ih have "mset (of_class Available xs cs') + mset (of_class Remainder xs cs') \<subseteq># add_mset x (mset xs)"
      by (rule subset_mset.order_trans) simp
    with Installed cs show ?thesis by (simp add: of_class_def)
  next
    case Available
    with cs ih show ?thesis by (simp add: of_class_def)
  next
    case Remainder
    with cs ih show ?thesis by (simp add: of_class_def)
  qed
qed

lemma length_classify_all:
  "classify_all h xs s = (Inr cs, s') \<Longrightarrow> length cs = length xs"
  by (induction xs arbitrary: cs s) (auto split: prod.splits sum.splits)

text \<open>
  Claim C2, as amended. After \<^verbatim>\<open>filter_dependencies\<close> has assigned the task, the new
  \<^verbatim>\<open>installables\<close> is exactly the part of the task's previous \<^verbatim>\<open>deps\<close> found not installed
  and available, the new \<^verbatim>\<open>deps\<close> is exactly the part found neither installed nor
  available, both in the previous order, and no other field has changed. On a host whose
  answers do not change during the call these are the two filters of the previous list.
  The two parts are separate: counted with multiplicity, together they hold no more than
  the previous list. So \<^verbatim>\<open>installables\<close> is contained in the task's previous \<^verbatim>\<open>deps\<close>, not
  in the new one.
\<close>

theorem filter_dependencies_partition:
  assumes run: "filter_dependencies h package s = (Inr package', s')"
  shows "(\<exists>classes. classify_all h (deps package) s = (Inr classes, s')
            \<and> package' = package\<lparr>deps := of_class Remainder (deps package) classes,
                                   installables := of_class Available (deps package) classes\<rparr>)
     \<and> (\<forall>a. answers h a \<longrightarrow>
           installables package' = filter (\<lambda>d. \<not> installed_in a d \<and> available_in a d) (deps package)
           \<and> deps package' = filter (\<lambda>d. \<not> installed_in a d \<and> \<not> available_in a d) (deps package))
     \<and> mset (installables package') + mset (deps package') \<subseteq># mset (deps package)
     \<and> set (installables package') \<subseteq> set (deps package)
     \<and> set (deps package') \<subseteq> set (deps package)"
proof -
  from run obtain classes where cl: "classify_all h (deps package) s = (Inr classes, s')"
    and result: "package' = package\<lparr>deps := of_class Remainder (deps package) classes,
                                   installables := of_class Available (deps package) classes\<rparr>"
    by (auto simp: filter_dependencies_def filter_loop_classify_all split: prod.splits sum.splits)
  have stable: "installables package' = filter (\<lambda>d. \<not> installed_in a d \<and> available_in a d) (deps package)
           \<and> deps package' = filter (\<lambda>d. \<not> installed_in a d \<and> \<not> available_in a d) (deps package)"
    if "answers h a" for a
  proof -
    from classify_all_answers [OF that cl] result show ?thesis
      by (auto simp: of_class_map intro: filter_cong)
  qed
  from mset_of_class [OF length_classify_all [OF cl]] result
  have part: "mset (installables package') + mset (deps package') \<subseteq># mset (deps package)"
    by simp
  have "mset (installables package') \<subseteq># mset (installables package') + mset (deps package')"
    and "mset (deps package') \<subseteq># mset (installables package') + mset (deps package')"
    by simp_all
  with part have "mset (installables package') \<subseteq># mset (deps package)"
    and "mset (deps package') \<subseteq># mset (deps package)"
    by (blast intro: subset_mset.order_trans)+
  from this [THEN set_mset_mono]
  have "set (installables package') \<subseteq> set (deps package)" and "set (deps package') \<subseteq> set (deps package)"
    by simp_all
  with cl result stable part show ?thesis by blast
qed

text \<open>
  A host on which nothing is installed (\<^verbatim>\<open>dpkg -s\<close> exits non-zero) and everything is
  available (\<^verbatim>\<open>apt-cache show\<close> completes), and a task with the single dependency \<^verbatim>\<open>a\<close>.
\<close>

definition binaries_only :: "unit host" where
  "binaries_only =
     \<lparr>subprocess = (\<lambda>command w.
        (if take 1 command = [''dpkg''] then Raised CalledProcessError else Completed, w))\<rparr>"

definition task_p :: package_info where
  "task_p = \<lparr>name = ''p'', version = ''1'', source_uri = \<lparr>locator = ''p.tar.xz'', subdir = ''''\<rparr>,
     build_deps = [''a''], run_deps = [], deps = [''a''], installables = [],
     base_slug = '''', build_location = ''''\<rparr>"

definition fresh :: "unit state" where
  "fresh = \<lparr>world = (), trace = []\<rparr>"

lemma filter_dependencies_task_p:
  "fst (filter_dependencies binaries_only task_p fresh) = Inr (task_p\<lparr>deps := [], installables := [''a'']\<rparr>)"
  by (simp add: filter_dependencies_def binaries_only_def task_p_def fresh_def
      check_if_installed_def check_if_available_def check_output_def call_def logging_def emit_def)

text \<open>
  A host on which \<^verbatim>\<open>x\<close> is installed, \<^verbatim>\<open>a\<close> is available and nothing else is either, and a
  task that lists \<^verbatim>\<open>x\<close>, \<^verbatim>\<open>a\<close>, \<^verbatim>\<open>y\<close> and \<^verbatim>\<open>a\<close> again.
\<close>

definition mixed_answers :: "string list \<Rightarrow> completion" where
  "mixed_answers command =
     (if command = [''dpkg'', ''-s'', ''x''] \<or> command = [''apt-cache'', ''show'', ''a'']
      then Completed else Raised CalledProcessError)"

definition mixed_host :: "unit host" where
  "mixed_host = \<lparr>subprocess = (\<lambda>command w. (mixed_answers command, w))\<rparr>"

definition task_xay :: package_info where
  "task_xay = task_p\<lparr>deps := [''x'', ''a'', ''y'', ''a'']\<rparr>"

lemma filter_dependencies_task_xay:
  "fst (filter_dependencies mixed_host task_xay fresh)
     = Inr (task_xay\<lparr>deps := [''y''], installables := [''a'', ''a'']\<rparr>)"
  by (simp add: filter_dependencies_def mixed_host_def mixed_answers_def task_xay_def task_p_def fresh_def
      check_if_installed_def check_if_available_def check_output_def call_def logging_def emit_def
      metachar_def)

theorem filter_dependencies_partition_witness:
  "fst (filter_dependencies mixed_host task_xay fresh)
     = Inr (task_xay\<lparr>deps := [''y''], installables := [''a'', ''a'']\<rparr>)
   \<and> filter (\<lambda>d. \<not> installed_in mixed_answers d \<and> available_in mixed_answers d) (deps task_xay) = [''a'', ''a'']
   \<and> filter (\<lambda>d. \<not> installed_in mixed_answers d \<and> \<not> available_in mixed_answers d) (deps task_xay) = [''y'']"
proof -
  have run: "filter_dependencies mixed_host task_xay fresh =
      (Inr (task_xay\<lparr>deps := [''y''], installables := [''a'', ''a'']\<rparr>),
       snd (filter_dependencies mixed_host task_xay fresh))"
    using filter_dependencies_task_xay by (simp add: prod_eq_iff)
  have stable: "answers mixed_host mixed_answers"
    by (simp add: answers_def mixed_host_def)
  let ?result = "task_xay\<lparr>deps := [''y''], installables := [''a'', ''a'']\<rparr>"
  from filter_dependencies_partition [OF run] stable
  have "installables ?result
          = filter (\<lambda>d. \<not> installed_in mixed_answers d \<and> available_in mixed_answers d) (deps task_xay)
      \<and> deps ?result
          = filter (\<lambda>d. \<not> installed_in mixed_answers d \<and> \<not> available_in mixed_answers d) (deps task_xay)"
    by blast
  then have "filter (\<lambda>d. \<not> installed_in mixed_answers d \<and> available_in mixed_answers d) (deps task_xay)
          = [''a'', ''a'']"
    and "filter (\<lambda>d. \<not> installed_in mixed_answers d \<and> \<not> available_in mixed_answers d) (deps task_xay)
          = [''y'']"
    by simp_all
  with filter_dependencies_task_xay show ?thesis by blast
qed

text \<open>
  Claim C2 as stated fails on the host where nothing is installed and everything is
  available, for the task whose only dependency is \<^verbatim>\<open>a\<close>: the dependency is moved to
  \<^verbatim>\<open>installables\<close> and the new \<^verbatim>\<open>deps\<close> is empty, so \<^verbatim>\<open>installables\<close> is not contained in it.
\<close>

theorem filter_dependencies_installables_not_in_deps:
  "fst (filter_dependencies binaries_only task_p fresh) = Inr (task_p\<lparr>deps := [], installables := [''a'']\<rparr>)
   \<and> \<not> set (installables (task_p\<lparr>deps := [], installables := [''a'']\<rparr>))
        \<subseteq> set (deps (task_p\<lparr>deps := [], installables := [''a'']\<rparr>))"
  using filter_dependencies_task_p by simp

section \<open>Claims about \<^verbatim>\<open>acbs/main.py\<close>\<close>

text \<open>
  A run to try the claims on: every helper succeeds, except that the build tool fails for
  the package \<^verbatim>\<open>c\<close>; the world is a clock that advances by one tick at each reading; the
  Tarjan search reports two loops, \<^verbatim>\<open>{a, b}\<close> and \<^verbatim>\<open>{e, f}\<close>, among singletons.
\<close>

definition task_named :: "string \<Rightarrow> package_info" where
  "task_named nm = \<lparr>name = nm, version = ''1'', source_uri = \<lparr>locator = nm @ ''.tar.xz'', subdir = ''''\<rparr>,
     build_deps = [], run_deps = [], deps = [], installables = [],
     base_slug = '''', build_location = ''''\<rparr>"

definition demo :: "(nat, unit) helpers" where
  "demo = \<lparr>
     find_package = (\<lambda>i tree w. (Inr [task_named i], w)),
     get_deps_graph = (\<lambda>packages w. (Inr (), w)),
     tarjan_search = (\<lambda>graph tree w.
       (Inr [[task_named ''c''], [task_named ''a'', task_named ''b''], [task_named ''d''],
             [task_named ''e'', task_named ''f'']], w)),
     check_package_groups = (\<lambda>packages w. (Inr (), w)),
     has_stamp = (\<lambda>location w. (Inr False, w)),
     fetch_source = (\<lambda>uri dump source_name w. (Inr (), w)),
     make_build_dir = (\<lambda>tmp w. (Inr (path_join tmp ''acbs.x''), w)),
     process_source = (\<lambda>task source_name w. (Inr (), w)),
     touch = (\<lambda>path w. (Inr (), w)),
     guess_subdir = (\<lambda>build_dir w. (Inr ''src'', w)),
     invoke_autobuild = (\<lambda>task build_dir w.
       (if name task = ''c'' then Inl (OtherException ''autobuild'') else Inr (), w)),
     monotonic = (\<lambda>w. (int w, Suc w)),
     apt = \<lparr>subprocess = (\<lambda>command w. (Completed, w))\<rparr>\<rparr>"

definition core :: build_core where
  "core = \<lparr>no_deps = False, dl_only = False, build_queue = [''a'', ''d''],
     tree_dir = ''/tree'', dump_dir = ''/dump'', tmp_dir = ''/tmp''\<rparr>"

definition five :: "package_info list" where
  "five = map task_named [''a'', ''b'', ''c'', ''d'', ''e'']"

definition zero :: "nat state" where
  "zero = \<lparr>world = 0, trace = []\<rparr>"

lemmas demo_simps =
  demo_def core_def five_def zero_def task_named_def build_task_def prepare_def stage_def
  source_root_def timed_build_def call_def emit_def logging_def path_join_def basename_def
  build_failure_def Let_def

subsection \<open>C1: a loop among the resolved components\<close>

text \<open>
  What the loop of lines 100 to 107 computes, in closed form: the queue gets the
  components before the first one of size above 1, the flag tells whether there is such a
  component, and each of them is logged, in order. The world is not touched.
\<close>

lemma check_loops_result:
  "check_loops resolved packages error s =
     ((packages @ (if error then [] else concat (takeWhile (\<lambda>d. \<not> 1 < length d) resolved)),
       error \<or> (\<exists>d \<in> set resolved. 1 < length d)),
      s\<lparr>trace := trace s @ map (\<lambda>d. Log ERROR loop_message [ATasks d]) (filter (\<lambda>d. 1 < length d) resolved)\<rparr>)"
proof (induction resolved arbitrary: packages error s)
  case Nil
  then show ?case by simp
next
  case (Cons dep rest)
  then show ?case by (simp add: logging_def emit_def)
qed

text \<open>
  Claim C1. Let the requested packages be found and let the resolution return
  \<open>resolved\<close>, in state \<open>s2\<close>, with a component of size above 1 in it. Then \<^verbatim>\<open>build\<close>
  raises the "Dependencies NOT resolved" error, and all it has done since \<open>s2\<close> is to print
  the empty line and to log one error for each component of size above 1, in order: the
  scan goes through all of \<open>resolved\<close>, and neither group validation nor any step of
  the build loop (stamp check, fetch, staging, installation, build tool) has run. The
  queue filled by the scan holds exactly the components in front of the first loop.
\<close>

theorem build_aborts_on_loops:
  assumes found: "find_packages env self (build_queue self) []
                    (logging INFO ''Searching and resolving dependencies...'' [] s) = (Inr found, s1)"
    and resolved: "resolve env self found s1 = (Inr resolved, s2)"
    and loop: "\<exists>d \<in> set resolved. 1 < length d"
  shows "build env self s =
           (Inl unresolved_error,
            s2\<lparr>trace := trace s2 @ Print [] #
                 map (\<lambda>d. Log ERROR loop_message [ATasks d]) (filter (\<lambda>d. 1 < length d) resolved)\<rparr>)
         \<and> fst (fst (check_loops resolved [] False (emit (Print []) s2)))
             = concat (takeWhile (\<lambda>d. \<not> 1 < length d) resolved)"
  using loop by (simp add: build_def found resolved check_loops_result emit_def)

theorem build_aborts_on_loops_witness:
  "fst (build demo core zero) = Inl unresolved_error
   \<and> logged loop_message (trace (snd (build demo core zero)))
       = [Log ERROR loop_message [ATasks [task_named ''a'', task_named ''b'']],
          Log ERROR loop_message [ATasks [task_named ''e'', task_named ''f'']]]
   \<and> called ''invoke_autobuild'' (trace (snd (build demo core zero))) = []
   \<and> called ''fetch_source'' (trace (snd (build demo core zero))) = []
   \<and> fst (fst (check_loops [[task_named ''c''], [task_named ''a'', task_named ''b''], [task_named ''d''],
                              [task_named ''e'', task_named ''f'']] [] False zero))
       = [task_named ''c'']"
proof -
  let ?s0 = "logging INFO ''Searching and resolving dependencies...'' [] zero"
  let ?s1 = "snd (find_packages demo core (build_queue core) [] ?s0)"
  let ?found = "[task_named ''a'', task_named ''d'']"
  let ?s2 = "snd (resolve demo core ?found ?s1)"
  let ?resolved = "[[task_named ''c''], [task_named ''a'', task_named ''b''], [task_named ''d''],
                    [task_named ''e'', task_named ''f'']]"
  have found: "find_packages demo core (build_queue core) [] ?s0 = (Inr ?found, ?s1)"
    by (simp add: prod_eq_iff demo_simps)
  have resolved: "resolve demo core ?found ?s1 = (Inr ?resolved, ?s2)"
    by (simp add: prod_eq_iff resolve_def demo_simps)
  have loop: "\<exists>d \<in> set ?resolved. 1 < length d"
    by simp
  from build_aborts_on_loops [OF found resolved loop]
  show ?thesis
    by (simp add: resolve_def logged_def called_def loop_message_def demo_simps)
qed

subsection \<open>C6: resolution disabled\<close>

lemma check_loops_singletons:
  "check_loops (map (\<lambda>package. [package]) packages) acc False s = ((acc @ packages, False), s)"
  by (induction packages arbitrary: acc) simp_all

text \<open>
  Claim C6. With \<^verbatim>\<open>no_deps\<close> set, the resolved queue is the list of the packages found for
  the request, each as a singleton, in the same order. Getting it logs one warning and
  nothing else: the world is untouched, \<^verbatim>\<open>get_deps_graph\<close> and \<^verbatim>\<open>tarjan_search\<close> are not
  called. The scan for loops then finds none and enqueues every package, in the same order.
\<close>

theorem no_deps_resolution:
  assumes "no_deps self"
  shows "resolve env self packages s =
           (Inr (map (\<lambda>package. [package]) packages),
            s\<lparr>trace := trace s @ [Log WARNING ''Warning: Dependency resolution disabled!'' []]\<rparr>)
         \<and> called ''get_deps_graph'' (trace (snd (resolve env self packages s)))
             = called ''get_deps_graph'' (trace s)
         \<and> called ''tarjan_search'' (trace (snd (resolve env self packages s)))
             = called ''tarjan_search'' (trace s)
         \<and> check_loops (map (\<lambda>package. [package]) packages) [] False s' = ((packages, False), s')"
  using assms by (simp add: resolve_def check_loops_singletons logging_def emit_def called_def)

theorem no_deps_resolution_witness:
  "fst (resolve demo (core\<lparr>no_deps := True\<rparr>) [task_named ''x'', task_named ''y''] zero)
     = Inr [[task_named ''x''], [task_named ''y'']]
   \<and> trace (snd (resolve demo (core\<lparr>no_deps := True\<rparr>) [task_named ''x'', task_named ''y''] zero))
     = [Log WARNING ''Warning: Dependency resolution disabled!'' []]"
proof -
  have "no_deps (core\<lparr>no_deps := True\<rparr>)" by simp
  from no_deps_resolution [OF this, of demo "[task_named ''x'', task_named ''y'']" zero]
  show ?thesis by (simp add: zero_def)
qed

subsection \<open>C7: the timing report when a build fails\<close>

lemma stage_name:
  "stage env self task source_name s = (Inr (task', build_dir), s') \<Longrightarrow> name task' = name task"
  by (auto simp: stage_def Let_def split: if_splits prod.splits sum.splits)

lemma prepare_Some:
  "prepare env self task s = (Inr (Some (task', build_dir)), s') \<Longrightarrow>
     name task' = name task \<and> \<not> dl_only self"
  by (auto simp: prepare_def Let_def split: if_splits prod.splits sum.splits dest: stage_name)

lemma prepare_None:
  "prepare env self task s = (Inr None, s') \<Longrightarrow> dl_only self"
  by (auto simp: prepare_def Let_def split: if_splits prod.splits sum.splits)

lemma timed_build_Inr:
  "timed_build env task build_dir build_timings s = (Inr build_timings', s') \<Longrightarrow>
     \<exists>d. build_timings' = build_timings @ [(name task, d)]"
  by (auto simp: timed_build_def split: prod.splits sum.splits)

text \<open>Outside download-only mode, a turn that does not raise appends one entry, for its task.\<close>

lemma build_task_names:
  assumes "\<not> dl_only self" and "build_task env self task build_timings s = (Inr build_timings', s')"
  shows "map fst build_timings' = map fst build_timings @ [name task]"
proof -
  from assms obtain task' build_dir s1 where
    ready: "prepare env self task s = (Inr (Some (task', build_dir)), s1)"
    and built: "timed_build env task' build_dir build_timings s1 = (Inr build_timings', s')"
    by (auto simp: build_task_def split: prod.splits sum.splits option.splits dest: prepare_None)
  from prepare_Some [OF ready] timed_build_Inr [OF built] show ?thesis by auto
qed

lemma build_loop_names:
  "\<not> dl_only self \<Longrightarrow> build_loop env self tasks build_timings s = (Inr build_timings', s') \<Longrightarrow>
     map fst build_timings' = map fst build_timings @ map name tasks"
proof (induction tasks arbitrary: build_timings s)
  case Nil
  then show ?case by simp
next
  case (Cons task rest)
  from Cons.prems(2) obtain tm s1 where
    turn: "build_task env self task build_timings s = (Inr tm, s1)"
    and rest: "build_loop env self rest tm s1 = (Inr build_timings', s')"
    by (auto split: prod.splits sum.splits)
  from build_task_names [OF Cons.prems(1) turn] Cons.IH [OF Cons.prems(1) rest]
  show ?case by simp
qed

lemma build_loop_append:
  "build_loop env self (xs @ ys) build_timings s =
     (case build_loop env self xs build_timings s of
        (Inl e, s1) \<Rightarrow> (Inl e, s1)
      | (Inr build_timings', s1) \<Rightarrow> build_loop env self ys build_timings' s1)"
  by (induction xs arbitrary: build_timings s) (auto split: prod.splits sum.splits)

text \<open>
  Claim C7. Let the build loop have gone through the first \<open>k\<close> packages of the queue
  (counting from 0, so these are the packages before the one at index \<open>k\<close>), let the
  package at index \<open>k\<close> be prepared, with the directory \<open>build_dir\<close> to build in, and let the
  build tool fail for it. Then the loop raises the \<^verbatim>\<open>RuntimeError\<close> whose message is
  "Error when building", the name of that package, a full stop, a line feed, "Build
  folder:" and \<open>build_dir\<close>. The timing list at that point has exactly one entry for each of the \<open>k\<close>
  packages built before, in order, and none for the failed one; it is printed, as the last
  thing done before the error is raised. When \<open>k = 0\<close> the list is empty and line 153
  skips the call that prints it.
\<close>

theorem build_failure_reports_timings:
  assumes k: "k < length queue"
    and before: "build_loop env self (take k queue) [] s = (Inr build_timings, s1)"
    and ready: "prepare env self (queue ! k) s1 = (Inr (Some (task', build_dir)), s2)"
    and clock: "call ''time.monotonic'' [] (monotonic env) s2 = (t0, s3)"
    and failed: "call ''invoke_autobuild'' [AStr (name task'), AStr build_dir]
                   (invoke_autobuild env task' build_dir) s3 = (Inl ex, s4)"
  shows "build_loop env self queue [] s =
           (Inl (RuntimeError (''Error when building '' @ name (queue ! k) @ ''.'' @ [CHR 0x0A] @ ''Build folder: '' @ build_dir)),
            if k = 0 then s4 else emit (PrintBuildTimings build_timings) s4)
         \<and> map fst build_timings = map name (take k queue)"
proof -
  from prepare_Some [OF ready] have nm: "name task' = name (queue ! k)" and mode: "\<not> dl_only self"
    by simp_all
  from build_loop_names [OF mode before] have entries: "map fst build_timings = map name (take k queue)"
    by simp
  then have "length build_timings = k"
    using k by (metis length_map length_take min.absorb2 less_imp_le)
  then have empty: "build_timings = [] \<longleftrightarrow> k = 0" by auto
  have turn: "build_task env self (queue ! k) build_timings s1 =
      (Inl (RuntimeError (''Error when building '' @ name (queue ! k) @ ''.'' @ [CHR 0x0A] @ ''Build folder: '' @ build_dir)),
       if k = 0 then s4 else emit (PrintBuildTimings build_timings) s4)"
    using empty by (simp add: build_task_def ready timed_build_def clock failed build_failure_def) (simp add: nm)
  have "queue = take k queue @ (queue ! k) # drop (Suc k) queue"
    using k by (simp add: id_take_nth_drop)
  then have "build_loop env self queue [] s =
      build_loop env self (take k queue @ (queue ! k) # drop (Suc k) queue) [] s" by simp
  also have "\<dots> = (Inl (RuntimeError (''Error when building '' @ name (queue ! k) @ ''.'' @ [CHR 0x0A] @ ''Build folder: '' @ build_dir)),
       if k = 0 then s4 else emit (PrintBuildTimings build_timings) s4)"
    unfolding build_loop_append by (simp add: before turn)
  finally show ?thesis using entries by simp
qed

text \<open>The third of five packages fails: the report printed has the first two.\<close>

theorem build_failure_reports_timings_witness:
  "fst (build_loop demo core five [] zero) = Inl (RuntimeError (''Error when building c.'' @ [CHR 0x0A] @ ''Build folder: /tmp/acbs.x/src''))
   \<and> last (trace (snd (build_loop demo core five [] zero))) = PrintBuildTimings [(''a'', 1), (''b'', 1)]"
proof -
  let ?s1 = "snd (build_loop demo core (take 2 five) [] zero)"
  let ?c = "(task_named ''c'')\<lparr>build_location := ''/tmp/acbs.x''\<rparr>"
  let ?s2 = "snd (prepare demo core (five ! 2) ?s1)"
  let ?s3 = "snd (call ''time.monotonic'' [] (monotonic demo) ?s2)"
  let ?s4 = "snd (call ''invoke_autobuild'' [AStr (name ?c), AStr ''/tmp/acbs.x/src'']
                   (invoke_autobuild demo ?c ''/tmp/acbs.x/src'') ?s3)"
  have k: "2 < length five" by (simp add: five_def)
  have before: "build_loop demo core (take 2 five) [] zero = (Inr [(''a'', 1), (''b'', 1)], ?s1)"
    by (simp add: prod_eq_iff demo_simps)
  have ready: "prepare demo core (five ! 2) ?s1 = (Inr (Some (?c, ''/tmp/acbs.x/src'')), ?s2)"
    by (simp add: prod_eq_iff demo_simps)
  have clock: "call ''time.monotonic'' [] (monotonic demo) ?s2 = (4, ?s3)"
    by (simp add: prod_eq_iff demo_simps)
  have failed: "call ''invoke_autobuild'' [AStr (name ?c), AStr ''/tmp/acbs.x/src'']
                   (invoke_autobuild demo ?c ''/tmp/acbs.x/src'') ?s3 = (Inl (OtherException ''autobuild''), ?s4)"
    by (simp add: prod_eq_iff demo_simps)
  from build_failure_reports_timings [OF k before ready clock failed]
  show ?thesis by (simp add: demo_simps)
qed

section \<open>Claims about \<^verbatim>\<open>acbs/deps.py\<close>\<close>

subsection \<open>What the parts of a call add to the trace\<close>

lemma called_logging [simp]: "called f (trace (logging l t as s)) = called f (trace s)"
  by (simp add: called_def logging_def emit_def)

lemma logged_logging:
  "logged m (trace (logging l t as s)) = logged m (trace s) @ (if t = m then [Log l t as] else [])"
  by (simp add: logged_def logging_def emit_def)


lemma logged_call: "call g as operation s = (r, s') \<Longrightarrow> logged m (trace s') = logged m (trace s)"
  by (auto simp: logged_def call_def emit_def split: prod.splits)


lemma search_deps_logged:
  "search_deps pm pkgs s = (r, s') \<Longrightarrow> logged m (trace s') = logged m (trace s)"
  by (auto simp: search_deps_def Let_def split: prod.splits sum.splits if_splits
      dest!: logged_call [where m = m])


lemma self_check_logged:
  "self_check pm slug i s = (r, s') \<Longrightarrow> m \<noteq> self_binary_message \<Longrightarrow>
     logged m (trace s') = logged m (trace s)"
  by (auto simp: self_check_def logged_logging split: prod.splits sum.splits if_splits
      dest!: search_deps_logged [where m = m])


lemma collect_search_pkgs_logged:
  "collect_search_pkgs pm slug xs acc s = (r, s') \<Longrightarrow> m \<noteq> self_binary_message \<Longrightarrow>
     logged m (trace s') = logged m (trace s)"
proof (induction xs arbitrary: acc s)
  case Nil
  then show ?case by simp
next
  case (Cons i rest)
  obtain r1 s1 where c: "self_check pm slug i s = (r1, s1)" by (cases "self_check pm slug i s")
  note q = self_check_logged [OF c Cons.prems(2)]
  show ?case
  proof (cases r1)
    case (Inl e)
    with Cons.prems c q show ?thesis by auto
  next
    case (Inr u)
    with Cons.prems c obtain acc' where "collect_search_pkgs pm slug rest acc' s1 = (r, s')"
      by (auto split: if_splits)
    from Cons.IH [OF this Cons.prems(2)] q show ?thesis by simp
  qed
qed


text \<open>Entries other than the own slug pass the loop without any call.\<close>

lemma collect_search_pkgs_prefix:
  "pkg_slug \<notin> set pre \<Longrightarrow>
     collect_search_pkgs pm pkg_slug (pre @ xs) acc s
       = collect_search_pkgs pm pkg_slug xs (acc @ filter (\<lambda>i. strip i \<noteq> []) pre) s"
  by (induction pre arbitrary: acc) (auto simp: self_check_def)

subsection \<open>C8: the recursion of \<^verbatim>\<open>process_deps\<close> is bounded\<close>

lemmas message_defs =
  checking_message_def exhaust_message_def install_failed_message_def self_binary_message_def

lemma decide_checking:
  "decide pm pkgs s = (r, s') \<Longrightarrow>
     logged checking_message (trace s') = logged checking_message (trace s)"
  by (auto simp: decide_def logged_logging message_defs split: prod.splits sum.splits if_splits
      dest!: search_deps_logged [where m = checking_message]
             logged_call [where m = checking_message])

lemma process_deps_body_checking:
  assumes "process_deps_body pm bdeps rdeps pkg_slug s = (r, s')"
  shows "logged checking_message (trace s')
           = logged checking_message (trace s) @ [Log INFO checking_message []]"
proof -
  let ?s0 = "logging DEBUG ''Searching dependencies: {}'' [AList (bdeps @ rdeps)]
               (logging INFO checking_message [] s)"
  have start: "logged checking_message (trace ?s0)
      = logged checking_message (trace s) @ [Log INFO checking_message []]"
    by (simp add: logged_logging message_defs)
  obtain r1 s1 where c: "collect_search_pkgs pm pkg_slug (bdeps @ rdeps) [] ?s0 = (r1, s1)"
    by (cases "collect_search_pkgs pm pkg_slug (bdeps @ rdeps) [] ?s0")
  have "checking_message \<noteq> self_binary_message" by (simp add: message_defs)
  from collect_search_pkgs_logged [OF c this]
  have loop: "logged checking_message (trace s1) = logged checking_message (trace ?s0)" .
  show ?thesis
  proof (cases r1)
    case (Inl e)
    with assms c have "s' = s1" by (simp add: process_deps_body_def Let_def)
    with loop start show ?thesis by simp
  next
    case (Inr pkgs)
    with assms c have "decide pm pkgs s1 = (r, s')" by (simp add: process_deps_body_def Let_def)
    from decide_checking [OF this] loop start show ?thesis by simp
  qed
qed


text \<open>
  Every invocation of \<^verbatim>\<open>process_deps\<close>, recursive or not, starts by logging the
  "Checking for dependencies" line, and nothing else logs it: counting these lines counts
  the invocations.
\<close>

definition invocations :: "event list \<Rightarrow> nat" where
  "invocations tr = length (logged checking_message tr)"

lemma process_deps_counts:
  "process_deps pm bdeps rdeps pkg_slug s = (res, s') \<Longrightarrow>
     int (invocations (trace s')) = int (invocations (trace s)) + 1 + (retry s' - retry s)
     \<and> retry s \<le> retry s' \<and> retry s' \<le> max (retry s) 2"
proof (induction pm bdeps rdeps pkg_slug s arbitrary: res s' rule: process_deps.induct)
  case (1 pm bdeps rdeps pkg_slug s)
  obtain ro s1 where body: "process_deps_body pm bdeps rdeps pkg_slug s = (ro, s1)"
    by (cases "process_deps_body pm bdeps rdeps pkg_slug s")
  have inv1: "invocations (trace s1) = Suc (invocations (trace s))"
    using process_deps_body_checking [OF body] by (simp add: invocations_def)
  have r1: "retry s1 = retry s" by (rule retry_process_deps_body [OF body])
  show ?case
  proof (cases ro)
    case (Some r)
    with body "1.prems" have "s' = s1" by (simp split: prod.splits)
    with inv1 r1 show ?thesis by simp
  next
    case None
    obtain res2 s2 where again:
      "process_deps pm bdeps rdeps pkg_slug (s1\<lparr>retry := retry s1 + 1\<rparr>) = (res2, s2)"
      by (cases "process_deps pm bdeps rdeps pkg_slug (s1\<lparr>retry := retry s1 + 1\<rparr>)")
    from None body have small: "\<not> 1 < retry s" by (auto dest: process_deps_body_None)
    from None body "1.prems" again have "s' = s2" by (auto split: sum.splits)
    moreover note "1.IH" [OF body [symmetric, unfolded None] refl again]
    ultimately show ?thesis using inv1 r1 small by simp
  qed
qed


text \<open>
  Claim C8. \<^verbatim>\<open>process_deps\<close> is a total function: its definition above is accepted with the
  measure \<open>2 - retry\<close>, which the recursive call decreases, because the call is only
  reached when the counter is at most 1 and is made with the counter incremented. On an
  instance whose counter is not negative (it starts at 0), one call makes at most three
  invocations in all, the original one and at most two re-invocations; the counter grows by
  exactly one for each re-invocation; and with the counter above 1 there is no
  re-invocation at all. This holds for every behaviour of the package manager.
\<close>

theorem process_deps_bounded:
  assumes "0 \<le> retry s"
  shows "invocations (trace (snd (process_deps pm bdeps rdeps pkg_slug s))) \<le> invocations (trace s) + 3
     \<and> int (invocations (trace (snd (process_deps pm bdeps rdeps pkg_slug s))))
         = int (invocations (trace s)) + 1 + (retry (snd (process_deps pm bdeps rdeps pkg_slug s)) - retry s)
     \<and> (1 < retry s \<longrightarrow>
          invocations (trace (snd (process_deps pm bdeps rdeps pkg_slug s))) = invocations (trace s) + 1)"
proof -
  obtain res s' where run: "process_deps pm bdeps rdeps pkg_slug s = (res, s')"
    by (cases "process_deps pm bdeps rdeps pkg_slug s")
  from process_deps_counts [OF run] assms show ?thesis
    unfolding run by auto
qed

text \<open>
  Three package managers to try the claims on. On all of them nothing is installed. On the
  first every name is available and every installation fails; on the second no name is
  available; on the third every name is available and installations succeed.
\<close>

definition installs_fail :: "unit package_manager" where
  "installs_fail =
     \<lparr>query_current_miss_pkgs = (\<lambda>pkgs w. (Inr pkgs, w)),
      query_online_pkgs = (\<lambda>pkgs w. (Inr pkgs, w)),
      install_pkgs = (\<lambda>pkgs w. (Inl (OtherException ''apt-get''), w)),
      correct_deps = (\<lambda>w. (Inr (), w))\<rparr>"

definition nothing_available :: "unit package_manager" where
  "nothing_available =
     \<lparr>query_current_miss_pkgs = (\<lambda>pkgs w. (Inr pkgs, w)),
      query_online_pkgs = (\<lambda>pkgs w. (Inr [], w)),
      install_pkgs = (\<lambda>pkgs w. (Inr (), w)),
      correct_deps = (\<lambda>w. (Inr (), w))\<rparr>"

definition all_available :: "unit package_manager" where
  "all_available =
     \<lparr>query_current_miss_pkgs = (\<lambda>pkgs w. (Inr pkgs, w)),
      query_online_pkgs = (\<lambda>pkgs w. (Inr pkgs, w)),
      install_pkgs = (\<lambda>pkgs w. (Inr (), w)),
      correct_deps = (\<lambda>w. (Inr (), w))\<rparr>"

lemmas deps_simps =
  installs_fail_def nothing_available_def all_available_def Dependencies_init_def fresh_def
  process_deps_body_def decide_def self_check_def search_deps_def exhaust_result_def
  truthy_set_def truthy_list_def list_or_empty_def set_or_empty_def uniq_def strip_examples
  call_def emit_def logging_def Let_def


theorem process_deps_bounded_witness:
  "invocations (trace (snd (process_deps installs_fail [''a''] [] ''p'' (Dependencies_init fresh)))) = 3
   \<and> retry (snd (process_deps installs_fail [''a''] [] ''p'' (Dependencies_init fresh))) = 2"
proof -
  have "0 \<le> retry (Dependencies_init fresh)" by (simp add: Dependencies_init_def)
  from process_deps_bounded [OF this, of installs_fail "[''a'']" "[]" "''p''"]
  show ?thesis
    by (simp add: deps_simps invocations_def logged_def message_defs)
qed

subsection \<open>C3: the value of the exhaust mode\<close>

text \<open>
  Claim C3 fails on the code. With the dependency \<^verbatim>\<open>a\<close> available and every installation
  failing, the call on a new instance retries twice; the second re-invocation, with the
  counter at 2, enters the exhaust mode (the warning is logged once) and returns the list
  \<^verbatim>\<open>['a']\<close>, which is what a direct call with the counter at 2 returns. But line 59 drops
  the value of the recursive call, so the original caller receives \<^verbatim>\<open>None\<close>.
\<close>

theorem process_deps_drops_exhaust_value:
  "fst (process_deps installs_fail [''a''] [] ''p'' (Dependencies_init fresh)) = Inr PyNone
   \<and> logged exhaust_message (trace (snd (process_deps installs_fail [''a''] [] ''p'' (Dependencies_init fresh))))
       = [Log WARNING exhaust_message []]
   \<and> fst (process_deps installs_fail [''a''] [] ''p'' ((Dependencies_init fresh)\<lparr>retry := 2\<rparr>))
       = Inr (PyList [''a''])"
  by (simp add: deps_simps logged_def message_defs)

text \<open>
  When a name is unresolved, the exhaust mode does not return at all: line 40 adds a set to
  a list.
\<close>

lemma process_deps_exhaust_type_error:
  "fst (process_deps nothing_available [''a''] [] ''p'' ((Dependencies_init fresh)\<lparr>retry := 2\<rparr>))
     = Inl (TypeError (''unsupported operand type(s) for +: 'set' and 'list'' @ [CHR 0x27]))"
  by (simp add: deps_simps)

subsection \<open>C10: the counter is never reset\<close>



text \<open>
  The \<^verbatim>\<open>except\<close> handler logs "An error occurred when installing dependencies" once for
  each installation that failed, and nothing else logs it.
\<close>

definition failures :: "event list \<Rightarrow> nat" where
  "failures tr = length (logged install_failed_message tr)"























text \<open>
  An installation failure is not followed by an increment when \<^verbatim>\<open>correct_deps\<close> itself
  raises: the exception leaves the handler before line 58.
\<close>

definition correction_fails :: "unit package_manager" where
  "correction_fails =
     \<lparr>query_current_miss_pkgs = (\<lambda>pkgs w. (Inr pkgs, w)),
      query_online_pkgs = (\<lambda>pkgs w. (Inr pkgs, w)),
      install_pkgs = (\<lambda>pkgs w. (Inl (OtherException ''apt-get''), w)),
      correct_deps = (\<lambda>w. (Inl (OtherException ''apt-get -f''), w))\<rparr>"

lemma retry_kept_when_correction_raises:
  "fst (process_deps correction_fails [''a''] [] ''p'' (Dependencies_init fresh)) = Inl (OtherException ''apt-get -f'')
   \<and> failures (trace (snd (process_deps correction_fails [''a''] [] ''p'' (Dependencies_init fresh)))) = 1
   \<and> retry (snd (process_deps correction_fails [''a''] [] ''p'' (Dependencies_init fresh))) = 0"
  by (simp add: correction_fails_def deps_simps failures_def logged_def message_defs)


subsection \<open>C4: a package that depends on itself\<close>

lemma self_check_own_slug:
  assumes "query_current_miss_pkgs pm [pkg_slug] (world s) = (Inr miss, w1)"
    and "query_online_pkgs pm miss w1 = (Inr avail, w2)"
  shows "self_check pm pkg_slug pkg_slug s =
     (if set miss \<subseteq> set avail
      then (Inr (), s\<lparr>world := w2, trace := trace s @
              [Call ''query_current_miss_pkgs'' [AList [pkg_slug]], Call ''query_online_pkgs'' [AList miss],
               Log WARNING self_binary_message []]\<rparr>)
      else (Inl (ACBSGeneralError self_dependency_message), s\<lparr>world := w2, trace := trace s @
              [Call ''query_current_miss_pkgs'' [AList [pkg_slug]], Call ''query_online_pkgs'' [AList miss]]\<rparr>))"
  using assms
  by (simp add: self_check_def search_deps_def call_def emit_def logging_def truthy_set_def Let_def)

text \<open>
  Claim C4. Let the concatenated dependency list contain the package's own slug, \<open>pre\<close>
  being the entries before its first occurrence, and let the two queries made for it
  answer \<open>miss\<close> (not installed) and \<open>avail\<close> (available among those). If the slug is
  missing and not available, \<^verbatim>\<open>process_deps\<close> raises the self-dependency error, having done
  nothing but log its two opening lines and make the two queries: no installation is
  attempted, and the counter is untouched. If everything reported missing is available,
  the check logs the warning and the call goes on: with the entries after the slug, the
  slug itself kept among the names to search (unless blank), and then with the decision of
  lines 37 to 57.
\<close>

theorem self_dependency_check:
  assumes split: "bdeps @ rdeps = pre @ pkg_slug # rest" and first: "pkg_slug \<notin> set pre"
    and missing: "query_current_miss_pkgs pm [pkg_slug] (world s) = (Inr miss, w1)"
    and online: "query_online_pkgs pm miss w1 = (Inr avail, w2)"
  shows "(pkg_slug \<in> set miss \<and> pkg_slug \<notin> set avail \<longrightarrow>
           process_deps pm bdeps rdeps pkg_slug s =
             (Inl (ACBSGeneralError self_dependency_message),
              s\<lparr>world := w2, trace := trace s @
                [Log INFO checking_message [],
                 Log DEBUG ''Searching dependencies: {}'' [AList (bdeps @ rdeps)],
                 Call ''query_current_miss_pkgs'' [AList [pkg_slug]],
                 Call ''query_online_pkgs'' [AList miss]]\<rparr>))
       \<and> (set miss \<subseteq> set avail \<longrightarrow>
           process_deps_body pm bdeps rdeps pkg_slug s =
             (case collect_search_pkgs pm pkg_slug rest (filter (\<lambda>i. strip i \<noteq> []) (pre @ [pkg_slug]))
                     (s\<lparr>world := w2, trace := trace s @
                        [Log INFO checking_message [],
                         Log DEBUG ''Searching dependencies: {}'' [AList (bdeps @ rdeps)],
                         Call ''query_current_miss_pkgs'' [AList [pkg_slug]],
                         Call ''query_online_pkgs'' [AList miss],
                         Log WARNING self_binary_message []]\<rparr>) of
                (Inl e, s1) \<Rightarrow> (Some (Inl e), s1)
              | (Inr search_pkgs, s1) \<Rightarrow> decide pm search_pkgs s1))"
proof -
  let ?s0 = "logging DEBUG ''Searching dependencies: {}'' [AList (bdeps @ rdeps)]
               (logging INFO checking_message [] s)"
  have w: "world ?s0 = world s" by (simp add: logging_def emit_def)
  have loop: "collect_search_pkgs pm pkg_slug (bdeps @ rdeps) [] ?s0
      = collect_search_pkgs pm pkg_slug (pkg_slug # rest) (filter (\<lambda>i. strip i \<noteq> []) pre) ?s0"
    by (simp only: split collect_search_pkgs_prefix [OF first] append_Nil)
  note own = self_check_own_slug [of pm pkg_slug ?s0, unfolded w, OF missing online]
  show ?thesis
  proof (intro conjI impI)
    assume "pkg_slug \<in> set miss \<and> pkg_slug \<notin> set avail"
    then have "\<not> set miss \<subseteq> set avail" by auto
    with own have "process_deps_body pm bdeps rdeps pkg_slug s =
        (Some (Inl (ACBSGeneralError self_dependency_message)),
         ?s0\<lparr>world := w2, trace := trace ?s0 @
            [Call ''query_current_miss_pkgs'' [AList [pkg_slug]], Call ''query_online_pkgs'' [AList miss]]\<rparr>)"
      by (simp add: process_deps_body_def Let_def loop)
    then show "process_deps pm bdeps rdeps pkg_slug s =
             (Inl (ACBSGeneralError self_dependency_message),
              s\<lparr>world := w2, trace := trace s @
                [Log INFO checking_message [],
                 Log DEBUG ''Searching dependencies: {}'' [AList (bdeps @ rdeps)],
                 Call ''query_current_miss_pkgs'' [AList [pkg_slug]],
                 Call ''query_online_pkgs'' [AList miss]]\<rparr>)"
      by (simp add: logging_def emit_def)
  next
    assume "set miss \<subseteq> set avail"
    with own have step: "collect_search_pkgs pm pkg_slug (bdeps @ rdeps) [] ?s0 =
        collect_search_pkgs pm pkg_slug rest (filter (\<lambda>i. strip i \<noteq> []) (pre @ [pkg_slug]))
          (?s0\<lparr>world := w2, trace := trace ?s0 @
             [Call ''query_current_miss_pkgs'' [AList [pkg_slug]], Call ''query_online_pkgs'' [AList miss],
              Log WARNING self_binary_message []]\<rparr>)"
      by (simp add: loop)
    show "process_deps_body pm bdeps rdeps pkg_slug s =
             (case collect_search_pkgs pm pkg_slug rest (filter (\<lambda>i. strip i \<noteq> []) (pre @ [pkg_slug]))
                     (s\<lparr>world := w2, trace := trace s @
                        [Log INFO checking_message [],
                         Log DEBUG ''Searching dependencies: {}'' [AList (bdeps @ rdeps)],
                         Call ''query_current_miss_pkgs'' [AList [pkg_slug]],
                         Call ''query_online_pkgs'' [AList miss],
                         Log WARNING self_binary_message []]\<rparr>) of
                (Inl e, s1) \<Rightarrow> (Some (Inl e), s1)
              | (Inr search_pkgs, s1) \<Rightarrow> decide pm search_pkgs s1)"
      unfolding process_deps_body_def Let_def step by (simp add: logging_def emit_def)
  qed
qed

theorem self_dependency_check_witness:
  "fst (process_deps nothing_available [''a'', ''p''] [''b''] ''p'' (Dependencies_init fresh))
     = Inl (ACBSGeneralError self_dependency_message)
   \<and> called ''install_pkgs''
       (trace (snd (process_deps nothing_available [''a'', ''p''] [''b''] ''p'' (Dependencies_init fresh)))) = []
   \<and> fst (process_deps all_available [''a'', ''p''] [''b''] ''p'' (Dependencies_init fresh)) = Inr PyNone
   \<and> logged self_binary_message
       (trace (snd (process_deps all_available [''a'', ''p''] [''b''] ''p'' (Dependencies_init fresh))))
     = [Log WARNING self_binary_message []]"
proof -
  have split: "[''a'', ''p''] @ [''b''] = [''a''] @ ''p'' # [''b'']" and first: "''p'' \<notin> set [''a'']"
    by simp_all
  have m1: "query_current_miss_pkgs nothing_available [''p''] (world (Dependencies_init fresh)) = (Inr [''p''], ())"
    and o1: "query_online_pkgs nothing_available [''p''] () = (Inr [], ())"
    and m2: "query_current_miss_pkgs all_available [''p''] (world (Dependencies_init fresh)) = (Inr [''p''], ())"
    and o2: "query_online_pkgs all_available [''p''] () = (Inr [''p''], ())"
    by (simp_all add: nothing_available_def all_available_def)
  from self_dependency_check [OF split first m1 o1] self_dependency_check [OF split first m2 o2]
  show ?thesis
    by (simp add: deps_simps logged_def called_def message_defs)
qed

end
